theory Spec2Isabelle
  imports Main "HOL-Library.Char_ord" "HOL-Library.List_Lexorder"
    "HOL-Library.Product_Lexorder" "HOL-Library.Sublist"
begin

section \<open>Shell-style globbing (Python's fnmatch)\<close>

text \<open>
  \<^verbatim>\<open>fnmatch.fnmatch(name, pat)\<close> of the Python standard library (3.11), on a POSIX host
  (where \<^verbatim>\<open>os.path.normcase\<close> is the identity). The library translates the pattern
  to a regular expression and asks for a match of the whole name: \<^verbatim>\<open>*\<close> is any run of
  characters, \<^verbatim>\<open>?\<close> is one character, \<^verbatim>\<open>[seq]\<close> and \<^verbatim>\<open>[!seq]\<close> are character
  sets with ranges, and a \<^verbatim>\<open>[\<close> that is never closed stands for itself. The pattern
  is translated to a list of tokens first, as the library translates it to a regular
  expression. Strings are lists of 8-bit characters.
\<close>

text \<open>
  A character set is kept as the library leaves it after its own rewriting: a list of
  characters and of the hyphens that stand between two chunks (the range hyphens).
\<close>

datatype atom = Ch char | Hy

datatype tok = Star | Quest | Lit char | Cls "atom list"

text \<open>
  The scan for the closing bracket: after an optional \<^verbatim>\<open>!\<close>, a \<^verbatim>\<open>]\<close> that comes
  first belongs to the set; the set ends at the next \<^verbatim>\<open>]\<close>. The result is the text
  between the brackets (\<^verbatim>\<open>stuff\<close>) and the rest of the pattern, or None when the
  bracket is never closed.
\<close>

definition scan_class :: "string \<Rightarrow> (string \<times> string) option" where
  "scan_class r =
     (let n1 = (if r \<noteq> [] \<and> hd r = CHR ''!'' then 1 else 0 :: nat);
          r1 = drop n1 r;
          n2 = (if r1 \<noteq> [] \<and> hd r1 = CHR '']'' then 1 else 0 :: nat);
          r2 = drop n2 r1
      in if CHR '']'' \<in> set r2
         then Some (take (n1 + n2) r @ takeWhile (\<lambda>c. c \<noteq> CHR '']'') r2,
                    tl (dropWhile (\<lambda>c. c \<noteq> CHR '']'') r2))
         else None)"

lemma scan_class_shorter:
  "scan_class r = Some (stuff, rest) \<Longrightarrow> length rest \<le> length r"
proof -
  have drop_le: "length (tl (dropWhile P xs)) \<le> length xs" for P and xs :: string
    using length_dropWhile_le [of P xs] by simp
  assume "scan_class r = Some (stuff, rest)"
  then obtain r2 where rest: "rest = tl (dropWhile (\<lambda>c. c \<noteq> CHR '']'') r2)"
    and r2: "length r2 \<le> length r"
    by (auto simp: scan_class_def Let_def split: if_splits)
  from drop_le [of "\<lambda>c. c \<noteq> CHR '']''" r2] rest r2 show ?thesis by simp
qed

text \<open>
  The text of a set is cut into chunks at its range hyphens. The search for the first
  hyphen starts behind the first character of the set (two characters in when the set
  opens with \<^verbatim>\<open>!\<close>); after a hyphen at \<open>k\<close> the next chunk starts at \<open>k + 1\<close> and
  the search goes on at \<open>k + 3\<close>. A hyphen that ends the text stays with the chunk
  before it.
\<close>

function chunks_from :: "nat \<Rightarrow> string \<Rightarrow> string list" where
  "chunks_from skip s =
     (if CHR ''-'' \<in> set (drop skip s)
      then (let chunk = take skip s @ takeWhile (\<lambda>c. c \<noteq> CHR ''-'') (drop skip s);
                rest = tl (dropWhile (\<lambda>c. c \<noteq> CHR ''-'') (drop skip s))
            in if rest = [] then [chunk @ ''-''] else chunk # chunks_from 2 rest)
      else [s])"
  by pat_completeness auto
termination
proof (relation "measure (\<lambda>(skip, s). length s)")
  show "wf (measure (\<lambda>(skip, s :: string). length s))" by simp
next
  fix skip :: nat and s chunk rest :: string
  assume "CHR ''-'' \<in> set (drop skip s)"
    and "rest = tl (dropWhile (\<lambda>c. c \<noteq> CHR ''-'') (drop skip s))"
  then have "length rest < length (drop skip s)"
    using length_dropWhile_le [of "\<lambda>c. c \<noteq> CHR ''-''" "drop skip s"]
    by (cases "dropWhile (\<lambda>c. c \<noteq> CHR ''-'') (drop skip s)") auto
  then show "((2, rest), (skip, s)) \<in> measure (\<lambda>(skip, s). length s)" by simp
qed

text \<open>
  Empty ranges are removed from the last pair of chunks to the first: where the last
  character of a chunk lies above the first character of the next, both characters go
  and the two chunks become one. No chunk is empty where two are compared.
\<close>

fun remove_empty_ranges :: "string list \<Rightarrow> string list" where
  "remove_empty_ranges [] = []"
| "remove_empty_ranges [c] = [c]"
| "remove_empty_ranges (c # d # cs) =
     (case remove_empty_ranges (d # cs) of
        [] \<Rightarrow> [c]
      | e # es \<Rightarrow>
          if c \<noteq> [] \<and> e \<noteq> [] \<and> last c > hd e then (butlast c @ tl e) # es
          else c # e # es)"

text \<open>The chunks are joined again with range hyphens between them.\<close>

fun join_chunks :: "string list \<Rightarrow> atom list" where
  "join_chunks [] = []"
| "join_chunks [c] = map Ch c"
| "join_chunks (c # d # cs) = map Ch c @ Hy # join_chunks (d # cs)"

definition class_atoms :: "string \<Rightarrow> atom list" where
  "class_atoms stuff =
     join_chunks (remove_empty_ranges
       (chunks_from (if stuff \<noteq> [] \<and> hd stuff = CHR ''!'' then 2 else 1) stuff))"

function translate :: "string \<Rightarrow> tok list" where
  "translate [] = []"
| "translate (c # r) =
     (if c = CHR ''*'' then Star # translate r
      else if c = CHR ''?'' then Quest # translate r
      else if c = CHR ''['' then
        (case scan_class r of
           None \<Rightarrow> Lit CHR ''['' # translate r
         | Some (stuff, rest) \<Rightarrow> Cls (class_atoms stuff) # translate rest)
      else Lit c # translate r)"
  by pat_completeness auto
termination
  by (relation "measure length") (auto dest: scan_class_shorter)

text \<open>
  How the regular expression reads a set: an item followed by a range hyphen and
  another item is a range, any other item stands for itself, and a range hyphen with
  nothing before or behind it is a hyphen. The set is negated when, after the
  rewriting, it opens with \<^verbatim>\<open>!\<close>; the empty set matches nothing and the negated empty
  set matches every character.
\<close>

fun atom_char :: "atom \<Rightarrow> char" where
  "atom_char (Ch c) = c"
| "atom_char Hy = CHR ''-''"

fun in_set :: "atom list \<Rightarrow> char \<Rightarrow> bool" where
  "in_set [] x = False"
| "in_set [a] x = (atom_char a = x)"
| "in_set [a, b] x = (atom_char a = x \<or> atom_char b = x)"
| "in_set (a # b # c # rest) x =
     (if b = Hy then (atom_char a \<le> x \<and> x \<le> atom_char c) \<or> in_set rest x
      else atom_char a = x \<or> in_set (b # c # rest) x)"

definition cls_match :: "atom list \<Rightarrow> char \<Rightarrow> bool" where
  "cls_match stuff x =
     (if stuff \<noteq> [] \<and> hd stuff = Ch CHR ''!'' then \<not> in_set (tl stuff) x
      else in_set stuff x)"

fun tok_match :: "tok list \<Rightarrow> string \<Rightarrow> bool" where
  "tok_match [] s = (s = [])"
| "tok_match (Star # ts) [] = tok_match ts []"
| "tok_match (Star # ts) (x # s) = (tok_match ts (x # s) \<or> tok_match (Star # ts) s)"
| "tok_match (Quest # ts) [] = False"
| "tok_match (Quest # ts) (x # s) = tok_match ts s"
| "tok_match (Lit c # ts) [] = False"
| "tok_match (Lit c # ts) (x # s) = (c = x \<and> tok_match ts s)"
| "tok_match (Cls stuff # ts) [] = False"
| "tok_match (Cls stuff # ts) (x # s) = (cls_match stuff x \<and> tok_match ts s)"

definition fnmatch :: "string \<Rightarrow> string \<Rightarrow> bool" where
  "fnmatch name pat = tok_match (translate pat) name"

section \<open>GitignoreParser\<close>

text \<open>
  The parser object holds the two pattern lists, in the order of the lines of the file.
\<close>

record gitignore_parser =
  patterns :: "string list"
  negation_patterns :: "string list"

definition endswith_slash :: "string \<Rightarrow> bool" where
  "endswith_slash p = (p \<noteq> [] \<and> last p = CHR ''/'')"

definition startswith_slash :: "string \<Rightarrow> bool" where
  "startswith_slash p = (p \<noteq> [] \<and> hd p = CHR ''/'')"

text \<open>\<^verbatim>\<open>os.path.basename\<close>: what follows the last slash.\<close>

definition basename :: "string \<Rightarrow> string" where
  "basename p = rev (takeWhile (\<lambda>c. c \<noteq> CHR ''/'') (rev p))"

text \<open>
  \<^verbatim>\<open>_matches_pattern\<close>: the directory-only suffix, the root anchor, a pattern with a
  slash, a bare file name pattern, in the order of the source.
\<close>

definition matches_pattern :: "string \<Rightarrow> string \<Rightarrow> bool \<Rightarrow> bool" where
  "matches_pattern path pattern is_dir =
     (if endswith_slash pattern \<and> \<not> is_dir then False
      else
        let pattern = (if endswith_slash pattern then butlast pattern else pattern)
        in if startswith_slash pattern then fnmatch path (tl pattern)
           else if CHR ''/'' \<in> set pattern
             then fnmatch path pattern \<or> fnmatch path (''*/'' @ pattern)
           else fnmatch (basename path) pattern \<or> fnmatch path (''*/'' @ pattern))"

text \<open>\<^verbatim>\<open>file_path.replace('\\', '/')\<close>\<close>

definition normalize_seps :: "string \<Rightarrow> string" where
  "normalize_seps p = map (\<lambda>c. if c = CHR 0x5C then CHR ''/'' else c) p"

text \<open>
  The two loops of \<^verbatim>\<open>should_ignore\<close> stop at the first pattern that matches.
\<close>

fun first_match :: "string \<Rightarrow> bool \<Rightarrow> string list \<Rightarrow> bool" where
  "first_match path is_dir [] = False"
| "first_match path is_dir (p # ps) =
     (if matches_pattern path p is_dir then True else first_match path is_dir ps)"

definition should_ignore :: "gitignore_parser \<Rightarrow> string \<Rightarrow> bool \<Rightarrow> bool" where
  "should_ignore g file_path is_dir =
     (let normalized_path = normalize_seps file_path;
          ignored = first_match normalized_path is_dir (patterns g)
      in if ignored
         then \<not> first_match normalized_path is_dir (negation_patterns g)
         else ignored)"

text \<open>
  Reading the ignore file. Opening and reading what a path names either yields all
  its lines, or yields some lines and then raises (it cannot be opened: no line at
  all; it cannot be decoded: the lines before the bad bytes), or never returns (a
  pipe that nobody writes to). Each line but the last ends with a line feed.

  The path given to the constructor may be missing (\<^verbatim>\<open>None\<close>). Otherwise
  \<^verbatim>\<open>Path.exists()\<close> asks the file system for the status of the path: the answer is
  that nothing is there (also for a link that leads nowhere), or an error that
  \<^verbatim>\<open>exists\<close> does not swallow (pathlib of Python 3.11 swallows ENOENT, ENOTDIR, EBADF
  and ELOOP only, so that EACCES leaves it as PermissionError), or that something is
  there.
\<close>

datatype exn = OSError | UnicodeDecodeError | FileNotFoundError | NotADirectoryError
  | PermissionError | IsADirectoryError

datatype file_content = Readable "string list" | Failing "string list" exn | Blocking

datatype gitignore_path = NoPath | Absent | StatError exn | Exists file_content

text \<open>
  \<^verbatim>\<open>str.strip()\<close> removes the white space of Python at both ends; below 256 these are
  the code points 9 to 13, 28 to 32, 133 and 160.
\<close>

definition is_space :: "char \<Rightarrow> bool" where
  "is_space c =
     (let n = (of_char c :: nat)
      in (9 \<le> n \<and> n \<le> 13) \<or> (28 \<le> n \<and> n \<le> 32) \<or> n = 133 \<or> n = 160)"

definition strip :: "string \<Rightarrow> string" where
  "strip l = rev (dropWhile is_space (rev (dropWhile is_space l)))"

text \<open>The body of the loop over the lines, then the loop.\<close>

definition parse_line :: "gitignore_parser \<Rightarrow> string \<Rightarrow> gitignore_parser" where
  "parse_line g raw =
     (let line = strip raw
      in if line = [] \<or> hd line = CHR ''#'' then g
         else if hd line = CHR ''!''
           then g\<lparr>negation_patterns := negation_patterns g @ [tl line]\<rparr>
         else g\<lparr>patterns := patterns g @ [line]\<rparr>)"

fun parse_lines :: "gitignore_parser \<Rightarrow> string list \<Rightarrow> gitignore_parser" where
  "parse_lines g [] = g"
| "parse_lines g (l # ls) = parse_lines (parse_line g l) ls"

text \<open>
  The block under \<^verbatim>\<open>try\<close>: the parser as the lines read so far have left it, and
  the exception that ended the block, if one did. None: the block never ends.
\<close>

definition read_patterns ::
  "gitignore_parser \<Rightarrow> file_content \<Rightarrow> (gitignore_parser \<times> exn option) option" where
  "read_patterns g c =
     (case c of
        Readable ls \<Rightarrow> Some (parse_lines g ls, None)
      | Failing ls e \<Rightarrow> Some (parse_lines g ls, Some e)
      | Blocking \<Rightarrow> None)"

text \<open>
  \<^verbatim>\<open>_parse_gitignore\<close>: \<^verbatim>\<open>except Exception\<close> catches every exception of the block
  and prints a warning. The result is None when the method never returns; otherwise
  it is the exception that leaves the method (\<open>Inl\<close>), or the parser and the warnings
  printed (\<open>Inr\<close>).
\<close>

definition parse_gitignore ::
  "gitignore_parser \<Rightarrow> file_content \<Rightarrow> (exn + gitignore_parser \<times> exn list) option" where
  "parse_gitignore g c =
     (case read_patterns g c of
        None \<Rightarrow> None
      | Some (g', None) \<Rightarrow> Some (Inr (g', []))
      | Some (g', Some e) \<Rightarrow> Some (Inr (g', [e])))"

definition empty_parser :: gitignore_parser where
  "empty_parser = \<lparr>patterns = [], negation_patterns = []\<rparr>"

text \<open>
  The constructor. The call of \<^verbatim>\<open>exists\<close> stands outside the \<^verbatim>\<open>try\<close> of
  \<^verbatim>\<open>_parse_gitignore\<close>: an error it raises leaves the constructor.
\<close>

definition GitignoreParser_init ::
  "gitignore_path \<Rightarrow> (exn + gitignore_parser \<times> exn list) option" where
  "GitignoreParser_init gitignore_path =
     (case gitignore_path of
        NoPath \<Rightarrow> Some (Inr (empty_parser, []))
      | Absent \<Rightarrow> Some (Inr (empty_parser, []))
      | StatError e \<Rightarrow> Some (Inl e)
      | Exists c \<Rightarrow> parse_gitignore empty_parser c)"

section \<open>RepoDocumentationGenerator\<close>

text \<open>
  The directory tree the generator walks, on a POSIX file system. A file has a name,
  a size, its modification time as \<^verbatim>\<open>strftime\<close> prints it, and what reading it
  gives. A directory has a name, two permissions and its children in the order
  \<^verbatim>\<open>iterdir\<close> yields them: without the read permission \<^verbatim>\<open>iterdir\<close> raises
  PermissionError; without the search permission the status of a child cannot be
  asked, and \<^verbatim>\<open>exists\<close>, \<^verbatim>\<open>is_file\<close> and \<^verbatim>\<open>is_dir\<close> of a child raise
  PermissionError. Anything else is neither a file nor a directory: a link that leads
  nowhere, which does not exist for \<^verbatim>\<open>exists\<close>, or a node (a pipe, a socket, a
  device) with what opening and reading it gives. Links that lead somewhere are the
  file or directory they lead to. The tree is finite.
\<close>

datatype special = DanglingLink | Node file_content

datatype entry =
    File string nat string file_content
  | Dir string bool bool "entry list"
  | Special string special

fun entry_name :: "entry \<Rightarrow> string" where
  "entry_name (File n sz mt c) = n"
| "entry_name (Dir n r x kids) = n"
| "entry_name (Special n k) = n"

fun is_file :: "entry \<Rightarrow> bool" where
  "is_file (File n sz mt c) = True"
| "is_file (Dir n r x kids) = False"
| "is_file (Special n k) = False"

fun is_dir :: "entry \<Rightarrow> bool" where
  "is_dir (File n sz mt c) = False"
| "is_dir (Dir n r x kids) = True"
| "is_dir (Special n k) = False"

record file_info =
  path :: string
  name :: string
  level :: nat
  directory :: string
  st_size :: nat
  modified :: string

definition DEFAULT_IGNORE_PATTERNS :: "string list" where
  "DEFAULT_IGNORE_PATTERNS =
    [''node_modules'', ''bower_components'', ''jspm_packages'',
     ''bin'', ''obj'', ''packages'', ''*.nupkg'',
     ''__pycache__'', ''*.pyc'', ''*.pyo'', ''*.pyd'', ''.Python'', ''env'', ''venv'',
     ''.env'', ''.venv'', ''pip-log.txt'', ''pip-delete-this-directory.txt'', ''.tox'',
     ''.coverage'', ''.pytest_cache'', ''htmlcov'', ''.cache'', ''nosetests.xml'',
     ''coverage.xml'', ''*.cover'', ''*.log'', ''.git'', ''.nyc_output'',
     ''.vscode'', ''.idea'', ''*.swp'', ''*.swo'', ''*~'',
     ''.DS_Store'', ''.DS_Store?'', ''._*'', ''.Spotlight-V100'', ''.Trashes'',
     ''ehthumbs.db'', ''Thumbs.db'',
     ''.cache'', ''.tmp'', ''tmp'', ''temp'', ''*.tmp'', ''*.temp'', ''.sass-cache'',
     ''.next'', ''.nuxt'', ''dist'', ''build'', ''out'',
     ''*.log'', ''logs'', ''npm-debug.log*'', ''yarn-debug.log*'', ''yarn-error.log*'',
     ''README.md'', ''readme.md'', ''README.txt'', ''readme.txt'', ''CHANGELOG.md'',
     ''changelog.md'', ''LICENSE'', ''license'', ''LICENSE.md'', ''license.md'',
     ''CONTRIBUTING.md'', ''contributing.md'']"

text \<open>
  \<^verbatim>\<open>_should_ignore_item\<close>: the default patterns first, on the name and on the
  relative path, then the rules of the ignore file.
\<close>

fun default_ignored :: "string \<Rightarrow> string \<Rightarrow> string list \<Rightarrow> bool" where
  "default_ignored item_name relative_path [] = False"
| "default_ignored item_name relative_path (pattern # ps) =
     (if fnmatch item_name pattern \<or> fnmatch relative_path pattern then True
      else default_ignored item_name relative_path ps)"

definition should_ignore_item :: "gitignore_parser \<Rightarrow> entry \<Rightarrow> string \<Rightarrow> bool" where
  "should_ignore_item g item relative_path =
     (if default_ignored (entry_name item) relative_path DEFAULT_IGNORE_PATTERNS then True
      else if should_ignore g relative_path (is_dir item) then True
      else False)"

text \<open>
  A relative path is the list of its components; \<^verbatim>\<open>str\<close> joins them with slashes,
  and the empty relative path prints as a dot.
\<close>

fun join_parts :: "string list \<Rightarrow> string" where
  "join_parts [] = ''.''"
| "join_parts [x] = x"
| "join_parts (x # y # ys) = x @ ''/'' @ join_parts (y # ys)"

text \<open>
  \<^verbatim>\<open>str.lower()\<close> on code points below 256: the letters A to Z, and the capital
  letters of Latin-1 (192 to 222 but for the multiplication sign 215).
\<close>

definition lower_char :: "char \<Rightarrow> char" where
  "lower_char c =
     (let n = (of_char c :: nat)
      in if (65 \<le> n \<and> n \<le> 90) \<or> (192 \<le> n \<and> n \<le> 222 \<and> n \<noteq> 215)
         then char_of (n + 32) else c)"

definition lower :: "string \<Rightarrow> string" where
  "lower s = map lower_char s"

text \<open>
  The children of a directory in the order the walk visits them: \<^verbatim>\<open>sorted\<close> is
  stable, directories come before files, and names are compared in lower case.
\<close>

definition sorted_items :: "entry list \<Rightarrow> entry list" where
  "sorted_items kids = sort_key (\<lambda>x. (is_file x, lower (entry_name x))) kids"

lemma set_sorted_items [simp]: "set (sorted_items kids) = set kids"
  by (simp add: sorted_items_def)

text \<open>
  \<^verbatim>\<open>_collect_files\<close>. The directory being listed is given by the components of its
  path below the root, by its two permissions, and by its children; the list of
  records is the \<^verbatim>\<open>file_list\<close> of the generator, which the walk appends to. The
  handler of PermissionError covers \<^verbatim>\<open>iterdir\<close> and the sort, whose key asks
  \<^verbatim>\<open>is_file\<close> of every child.
\<close>

definition make_file_info :: "string list \<Rightarrow> nat \<Rightarrow> entry \<Rightarrow> file_info list" where
  "make_file_info parts lvl item =
     (case item of
        File n sz mt c \<Rightarrow>
          [\<lparr>path = join_parts (parts @ [n]), name = n, level = lvl,
            directory = join_parts parts, st_size = sz, modified = mt\<rparr>]
      | _ \<Rightarrow> [])"

function collect_files ::
  "gitignore_parser \<Rightarrow> string list \<Rightarrow> nat \<Rightarrow> bool \<Rightarrow> bool \<Rightarrow> entry list \<Rightarrow> file_info list
     \<Rightarrow> file_info list"
where
  "collect_files g parts lvl readable searchable kids file_list =
     (if \<not> readable then file_list
      else if \<not> searchable \<and> kids \<noteq> [] then file_list
      else fold (\<lambda>item fl.
             if should_ignore_item g item (join_parts (parts @ [entry_name item])) then fl
             else (case item of
                     File n sz mt c \<Rightarrow> fl @ make_file_info parts lvl item
                   | Dir n r x ks \<Rightarrow> collect_files g (parts @ [n]) (lvl + 1) r x ks fl
                   | Special n k \<Rightarrow> fl))
           (sorted_items kids) file_list)"
  by pat_completeness auto
termination
proof (relation "measure (\<lambda>(g, parts, lvl, readable, searchable, kids, fl). size_list size kids)")
  show "wf (measure (\<lambda>(g, parts, lvl, readable, searchable, kids, fl). size_list size kids))"
    by simp
next
  fix kids :: "entry list" and item n r x ks
  fix g :: gitignore_parser and parts :: "string list" and lvl :: nat
    and readable searchable :: bool and file_list fl :: "file_info list"
  assume "item \<in> set (sorted_items kids)" and "item = Dir n r x ks"
  then have "Dir n r x ks \<in> set kids" by simp
  then have "size (Dir n r x ks) \<le> size_list size kids"
    by (induction kids) auto
  then show "((g, parts @ [n], lvl + 1, r, x, ks, fl),
              (g, parts, lvl, readable, searchable, kids, file_list))
      \<in> measure (\<lambda>(g, parts, lvl, readable, searchable, kids, fl). size_list size kids)"
    by simp
qed

declare collect_files.simps [simp del]

record generator =
  root_path :: entry
  output_file :: string
  gitignore_parser :: gitignore_parser
  file_list :: "file_info list"
  excluded_files :: "string set"

text \<open>
  What the file system says of \<^verbatim>\<open>root_path / '.gitignore'\<close>. Below a root that is
  no directory, or that is not there, nothing exists. In a directory without the
  search permission the status of a child cannot be asked. Otherwise the child of that
  name decides: a file or a node is there and can be opened, a directory is there and
  opening it raises, a link that leads nowhere is not there.
\<close>

definition root_gitignore :: "entry option \<Rightarrow> gitignore_path" where
  "root_gitignore root =
     (case root of
        Some (Dir n r x kids) \<Rightarrow>
          (if \<not> x then StatError PermissionError
           else (case find (\<lambda>e. entry_name e = ''.gitignore'') kids of
                   None \<Rightarrow> Absent
                 | Some (File n' sz mt c) \<Rightarrow> Exists c
                 | Some (Dir n' r' x' ks) \<Rightarrow> Exists (Failing [] IsADirectoryError)
                 | Some (Special n' DanglingLink) \<Rightarrow> Absent
                 | Some (Special n' (Node c)) \<Rightarrow> Exists c))
      | _ \<Rightarrow> Absent)"

text \<open>
  The constructor: the parser is built first, then the root is checked. The result
  is None when the constructor never returns; otherwise it is the exception raised,
  or the generator and the warnings printed.
\<close>

definition RepoDocumentationGenerator_init ::
  "entry option \<Rightarrow> string \<Rightarrow> (exn + generator \<times> exn list) option" where
  "RepoDocumentationGenerator_init root out =
     (case GitignoreParser_init (root_gitignore root) of
        None \<Rightarrow> None
      | Some (Inl e) \<Rightarrow> Some (Inl e)
      | Some (Inr (gp, warnings)) \<Rightarrow>
          (case root of
             None \<Rightarrow> Some (Inl FileNotFoundError)
           | Some (Special n DanglingLink) \<Rightarrow> Some (Inl FileNotFoundError)
           | Some (Dir n r x kids) \<Rightarrow>
               Some (Inr (\<lparr>root_path = Dir n r x kids, output_file = out,
                           gitignore_parser = gp, file_list = [], excluded_files = {}\<rparr>,
                          warnings))
           | Some _ \<Rightarrow> Some (Inl NotADirectoryError)))"

text \<open>
  \<^verbatim>\<open>collect_all_files\<close> empties the list, walks the root at level 0, and returns the
  list with the generator it leaves.
\<close>

definition walk_root :: "generator \<Rightarrow> file_info list \<Rightarrow> file_info list" where
  "walk_root s fl =
     (case root_path s of
        Dir n r x kids \<Rightarrow> collect_files (gitignore_parser s) [] 0 r x kids fl
      | _ \<Rightarrow> fl)"

definition collect_all_files :: "generator \<Rightarrow> file_info list \<times> generator" where
  "collect_all_files s =
     (let s1 = s\<lparr>file_list := []\<rparr>;
          s2 = s1\<lparr>file_list := walk_root s1 (file_list s1)\<rparr>
      in (file_list s2, s2))"

definition set_excluded_files :: "generator \<Rightarrow> string set \<Rightarrow> generator" where
  "set_excluded_files s excluded = s\<lparr>excluded_files := excluded\<rparr>"

definition get_included_files :: "generator \<Rightarrow> file_info list" where
  "get_included_files s = filter (\<lambda>f. path f \<notin> excluded_files s) (file_list s)"

text \<open>
  \<^verbatim>\<open>save_markdown\<close> renders the included records and writes the output file. The
  text of the document is not modelled: what is written is given by the name of the
  file and the records it documents. Opening the destination may fail.
\<close>

definition save_markdown :: "generator \<Rightarrow> bool \<Rightarrow> exn + string \<times> file_info list" where
  "save_markdown s writable =
     (let included_files = get_included_files s
      in if writable then Inr (output_file s, included_files) else Inl OSError)"

text \<open>
  The command line mode of \<^verbatim>\<open>main\<close>: construct, collect, save. The result is the
  exit status and the file written, if one was; None when \<^verbatim>\<open>main\<close> never returns.
\<close>

definition main_cli ::
  "entry option \<Rightarrow> string \<Rightarrow> bool \<Rightarrow> (nat \<times> (string \<times> file_info list) option) option" where
  "main_cli root out writable =
     (case RepoDocumentationGenerator_init root out of
        None \<Rightarrow> None
      | Some (Inl e) \<Rightarrow> Some (1, None)
      | Some (Inr (s, warnings)) \<Rightarrow>
          (case save_markdown (snd (collect_all_files s)) writable of
             Inl e \<Rightarrow> Some (1, None)
           | Inr written \<Rightarrow> Some (0, Some written)))"

text \<open>
  What a directory tree of a file system always satisfies: no name holds a slash, and
  the names of the children of one directory differ.
\<close>

fun wf_entry :: "entry \<Rightarrow> bool" where
  "wf_entry (File n sz mt c) = (CHR ''/'' \<notin> set n)"
| "wf_entry (Dir n r x kids) =
     (CHR ''/'' \<notin> set n \<and> distinct (map entry_name kids) \<and> list_all wf_entry kids)"
| "wf_entry (Special n k) = (CHR ''/'' \<notin> set n)"

definition wf_kids :: "entry list \<Rightarrow> bool" where
  "wf_kids kids = (distinct (map entry_name kids) \<and> list_all wf_entry kids)"

text \<open>The entry that a relative path, given by its components, names below a directory.\<close>

fun lookup :: "entry list \<Rightarrow> string list \<Rightarrow> entry option" where
  "lookup kids [] = None"
| "lookup kids [c] = find (\<lambda>e. entry_name e = c) kids"
| "lookup kids (c # d # cs) =
     (case find (\<lambda>e. entry_name e = c) kids of
        Some (Dir n r x ks) \<Rightarrow> lookup ks (d # cs)
      | _ \<Rightarrow> None)"

text \<open>
  What the walk appends for one child of a directory: the body of the loop of
  \<^verbatim>\<open>_collect_files\<close>, started from the empty list.
\<close>

definition collect_item :: "gitignore_parser \<Rightarrow> string list \<Rightarrow> nat \<Rightarrow> entry \<Rightarrow> file_info list" where
  "collect_item g parts lvl item =
     (if should_ignore_item g item (join_parts (parts @ [entry_name item])) then []
      else (case item of
              File n sz mt c \<Rightarrow> make_file_info parts lvl item
            | Dir n r x ks \<Rightarrow> collect_files g (parts @ [n]) (lvl + 1) r x ks []
            | Special n k \<Rightarrow> []))"

section \<open>FilePreviewWindow\<close>

text \<open>
  The preview window keeps the list of records it was given, the dictionary from
  paths to the rows of the tree widget, of which only the keys matter here (in the
  order they were inserted), and the set of excluded paths. The widget itself is not
  modelled.
\<close>

record preview_window =
  files_list :: "file_info list"
  file_items :: "string list"
  excluded :: "string set"
  destroyed :: bool

text \<open>The keys of a dictionary filled in the order of the list: first occurrences.\<close>

definition dict_keys :: "'a list \<Rightarrow> 'a list" where
  "dict_keys xs = rev (remdups (rev xs))"

text \<open>
  \<^verbatim>\<open>populate_file_list\<close>: records are grouped by directory, the root directory
  first and the others in order, and sorted by lower-case name within a group.
\<close>

definition populate_file_list :: "file_info list \<Rightarrow> string list" where
  "populate_file_list files =
     (let sorted_directories =
            sort_key (\<lambda>x. (x \<noteq> ''.'', x)) (dict_keys (map directory files))
      in dict_keys (concat (map
           (\<lambda>d. map path (sort_key (\<lambda>f. lower (name f)) (filter (\<lambda>f. directory f = d) files)))
           sorted_directories)))"

definition FilePreviewWindow_init :: "file_info list \<Rightarrow> preview_window" where
  "FilePreviewWindow_init files =
     \<lparr>files_list = files, file_items = populate_file_list files, excluded = {},
      destroyed = False\<rparr>"

text \<open>
  \<^verbatim>\<open>toggle_all_selection\<close>: every key of the dictionary is taken out of the excluded
  set when it is there and put into it when it is not.
\<close>

definition flip_path :: "string \<Rightarrow> string set \<Rightarrow> string set" where
  "flip_path file_path ex = (if file_path \<in> ex then ex - {file_path} else insert file_path ex)"

definition toggle_all_selection :: "preview_window \<Rightarrow> preview_window" where
  "toggle_all_selection w = w\<lparr>excluded := fold flip_path (file_items w) (excluded w)\<rparr>"

text \<open>
  \<^verbatim>\<open>confirm\<close>: with as many excluded paths as records, a warning is shown and the
  method returns; otherwise the callback receives the excluded set and the window is
  destroyed. The result is the window and what the method did.
\<close>

datatype ui_effect = ShowWarning string string | Callback "string set"

definition confirm :: "preview_window \<Rightarrow> preview_window \<times> ui_effect list" where
  "confirm w =
     (if card (excluded w) = length (files_list w)
      then (w, [ShowWarning ''No Files Selected''
                  ''You must include at least one file to generate documentation.''])
      else (w\<lparr>destroyed := True\<rparr>, [Callback (excluded w)]))"

section \<open>The scenario of the specification\<close>

text \<open>
  A root with \<^verbatim>\<open>src/a.py\<close>, \<^verbatim>\<open>src/__pycache__/x.pyc\<close>, \<^verbatim>\<open>README.md\<close>,
  \<^verbatim>\<open>debug.log\<close>, \<^verbatim>\<open>important.log\<close> and a \<^verbatim>\<open>.gitignore\<close> of two lines.
\<close>

definition scenario_kids :: "entry list" where
  "scenario_kids =
     [File ''README.md'' 10 ''2024-01-01 00:00:00'' (Readable []),
      File ''debug.log'' 5 ''2024-01-01 00:00:00'' (Readable []),
      File ''.gitignore'' 21 ''2024-01-01 00:00:00''
        (Readable [''*.log'' @ [CHR 0x0A], ''!important.log'' @ [CHR 0x0A]]),
      Dir ''src'' True True
        [File ''a.py'' 7 ''2024-01-01 00:00:00'' (Readable []),
         Dir ''__pycache__'' True True
           [File ''x.pyc'' 9 ''2024-01-01 00:00:00'' (Readable [])]],
      File ''important.log'' 3 ''2024-01-01 00:00:00'' (Readable [])]"

definition scenario_root :: entry where
  "scenario_root = Dir ''repo'' True True scenario_kids"

definition scenario_parser :: gitignore_parser where
  "scenario_parser = \<lparr>patterns = [''*.log''], negation_patterns = [''important.log'']\<rparr>"

definition scenario_generator :: generator where
  "scenario_generator =
     \<lparr>root_path = scenario_root, output_file = ''file_documentation.md'',
      gitignore_parser = scenario_parser, file_list = [], excluded_files = {}\<rparr>"

text \<open>The records the walk collects on the scenario.\<close>

definition scenario_records :: "file_info list" where
  "scenario_records =
     [\<lparr>path = ''src/a.py'', name = ''a.py'', level = 1, directory = ''src'',
       st_size = 7, modified = ''2024-01-01 00:00:00''\<rparr>,
      \<lparr>path = ''.gitignore'', name = ''.gitignore'', level = 0, directory = ''.'',
       st_size = 21, modified = ''2024-01-01 00:00:00''\<rparr>]"

text \<open>
  A root directory with the read permission and without the search permission, which
  holds an ignore file of one line.
\<close>

definition unsearchable_root :: entry where
  "unsearchable_root =
     Dir ''repo'' True False
       [File ''.gitignore'' 6 ''2024-01-01 00:00:00'' (Readable [''*.log'' @ [CHR 0x0A]])]"

text \<open>A root that holds nothing but a \<^verbatim>\<open>README.md\<close>.\<close>

definition readme_only_root :: entry where
  "readme_only_root =
     Dir ''repo'' True True [File ''README.md'' 10 ''2024-01-01 00:00:00'' (Readable [])]"

definition readme_only_generator :: generator where
  "readme_only_generator =
     \<lparr>root_path = readme_only_root, output_file = ''file_documentation.md'',
      gitignore_parser = empty_parser, file_list = [], excluded_files = {}\<rparr>"

section \<open>Properties of the pattern matcher\<close>

lemma first_match_iff:
  "first_match p d ps \<longleftrightarrow> (\<exists>q \<in> set ps. matches_pattern p q d)"
  by (induction ps) auto

text \<open>
  C3: a pattern that ends in a slash is a directory-only pattern: whatever the path,
  it does not match an entry that is not a directory.
\<close>

theorem directory_only_pattern_never_matches_file:
  "endswith_slash pattern \<Longrightarrow> matches_pattern p pattern False = False"
  by (simp add: matches_pattern_def)

theorem directory_only_pattern_never_matches_file_witness:
  "endswith_slash ''build/'' \<and> matches_pattern ''build'' ''build/'' False = False"
  using directory_only_pattern_never_matches_file [of "''build/''" "''build''"]
  by (simp add: endswith_slash_def)

text \<open>
  C4: the three ways a pattern is matched once the directory-only suffix is dealt with.
  The working pattern \<open>w\<close> is the pattern itself when it does not end in a slash, and
  the pattern without its last slash when it does (and the entry is a directory). If
  \<open>w\<close> starts with a slash, the path must match what follows the slash, as a whole. If
  \<open>w\<close> has a slash elsewhere, the path must match \<open>w\<close> or \<open>*/w\<close>. Otherwise the base
  name of the path must match \<open>w\<close>, or the path must match \<open>*/w\<close>.
\<close>

theorem matches_pattern_three_cases:
  assumes "endswith_slash pattern \<longrightarrow> d"
    and "w = (if endswith_slash pattern then butlast pattern else pattern)"
  shows "(startswith_slash w \<longrightarrow>
            matches_pattern p pattern d = fnmatch p (tl w))
       \<and> (\<not> startswith_slash w \<and> CHR ''/'' \<in> set w \<longrightarrow>
            matches_pattern p pattern d =
              (fnmatch p w \<or> fnmatch p (''*/'' @ w)))
       \<and> (\<not> startswith_slash w \<and> CHR ''/'' \<notin> set w \<longrightarrow>
            matches_pattern p pattern d =
              (fnmatch (basename p) w \<or> fnmatch p (''*/'' @ w)))"
  using assms by (cases "endswith_slash pattern") (simp_all add: matches_pattern_def Let_def)

theorem matches_pattern_three_cases_witness:
  "matches_pattern ''build/x.o'' ''/build/*'' False = fnmatch ''build/x.o'' ''build/*''
   \<and> matches_pattern ''a/docs/api'' ''docs/api/'' True =
       (fnmatch ''a/docs/api'' ''docs/api'' \<or> fnmatch ''a/docs/api'' ''*/docs/api'')
   \<and> matches_pattern ''src/x.log'' ''*.log'' False =
       (fnmatch ''x.log'' ''*.log'' \<or> fnmatch ''src/x.log'' ''*/*.log'')"
  using matches_pattern_three_cases [of "''/build/*''" False "''/build/*''" "''build/x.o''"]
    matches_pattern_three_cases [of "''docs/api/''" True "''docs/api''" "''a/docs/api''"]
    matches_pattern_three_cases [of "''*.log''" False "''*.log''" "''src/x.log''"]
  by (simp add: endswith_slash_def startswith_slash_def basename_def)

section \<open>Properties of the rule set\<close>

text \<open>
  C2, as the code has it: the path is ignored exactly when some match pattern matches
  the path with its backslashes turned into slashes and no negation pattern matches
  that path. So negation patterns with no matching match pattern ignore nothing, and
  two parsers with the same patterns in another order decide alike.
\<close>

theorem should_ignore_iff:
  "(should_ignore g p d \<longleftrightarrow>
      (\<exists>m \<in> set (patterns g). matches_pattern (normalize_seps p) m d)
      \<and> \<not> (\<exists>n \<in> set (negation_patterns g). matches_pattern (normalize_seps p) n d))
   \<and> (\<not> (\<exists>m \<in> set (patterns g). matches_pattern (normalize_seps p) m d)
        \<longrightarrow> \<not> should_ignore g p d)
   \<and> (set (patterns g') = set (patterns g)
        \<and> set (negation_patterns g') = set (negation_patterns g)
        \<longrightarrow> should_ignore g' p d = should_ignore g p d)"
  by (simp add: should_ignore_def Let_def first_match_iff)

theorem should_ignore_iff_witness:
  "should_ignore scenario_parser ''debug.log'' False
   \<and> \<not> should_ignore scenario_parser ''important.log'' False
   \<and> \<not> should_ignore \<lparr>patterns = [], negation_patterns = [''important.log'']\<rparr>
         ''important.log'' False
   \<and> should_ignore \<lparr>patterns = [''*.log'', ''tmp''], negation_patterns = []\<rparr> ''tmp'' True
     = should_ignore \<lparr>patterns = [''tmp'', ''*.log''], negation_patterns = []\<rparr> ''tmp'' True"
  using should_ignore_iff [of scenario_parser "''debug.log''" False]
    should_ignore_iff [of scenario_parser "''important.log''" False]
    should_ignore_iff [of "\<lparr>patterns = [], negation_patterns = [''important.log'']\<rparr>"
      "''important.log''" False]
    should_ignore_iff [of "\<lparr>patterns = [''*.log'', ''tmp''], negation_patterns = []\<rparr>"
      "''tmp''" True "\<lparr>patterns = [''tmp'', ''*.log''], negation_patterns = []\<rparr>"]
  by (simp add: scenario_parser_def normalize_seps_def matches_pattern_def endswith_slash_def
      startswith_slash_def fnmatch_def basename_def insert_commute)

text \<open>
  C2 as it is written speaks of the path itself. A file named \<^verbatim>\<open>a\b\<close> (one
  backslash) is ignored by the rule \<^verbatim>\<open>a/b\<close>, which does not match that name.
\<close>

theorem should_ignore_backslash_counterexample:
  "\<not> (should_ignore \<lparr>patterns = [''a/b''], negation_patterns = []\<rparr>
          [CHR ''a'', CHR 0x5C, CHR ''b''] False
        \<longleftrightarrow>
          (\<exists>m \<in> set [''a/b'']. matches_pattern [CHR ''a'', CHR 0x5C, CHR ''b''] m False)
          \<and> \<not> (\<exists>n \<in> set ([] :: string list).
                   matches_pattern [CHR ''a'', CHR 0x5C, CHR ''b''] n False))"
  by (simp add: should_ignore_def normalize_seps_def matches_pattern_def endswith_slash_def
      startswith_slash_def fnmatch_def scan_class_def)

lemma GitignoreParser_init_returns:
  "GitignoreParser_init NoPath = Some (Inr (empty_parser, []))
   \<and> GitignoreParser_init Absent = Some (Inr (empty_parser, []))
   \<and> GitignoreParser_init (Exists (Readable ls))
       = Some (Inr (parse_lines empty_parser ls, []))
   \<and> GitignoreParser_init (Exists (Failing ls e))
       = Some (Inr (parse_lines empty_parser ls, [e]))"
  by (simp add: GitignoreParser_init_def parse_gitignore_def read_patterns_def)

text \<open>
  C9 says that building the rule set never fails, whatever the ignore file. It does
  fail: in a root directory that may be read but not searched, \<^verbatim>\<open>exists\<close> cannot ask
  for the status of \<^verbatim>\<open>.gitignore\<close> and raises PermissionError, outside every
  \<^verbatim>\<open>try\<close>; the exception leaves the constructor of the parser and, with it, the
  constructor of the generator.
\<close>

theorem GitignoreParser_init_raises_PermissionError:
  "GitignoreParser_init (StatError PermissionError) = Some (Inl PermissionError)
   \<and> root_gitignore (Some unsearchable_root) = StatError PermissionError
   \<and> RepoDocumentationGenerator_init (Some unsearchable_root) ''file_documentation.md''
       = Some (Inl PermissionError)"
  by (simp add: GitignoreParser_init_def root_gitignore_def unsearchable_root_def
      RepoDocumentationGenerator_init_def)

section \<open>Properties of the collector\<close>

text \<open>
  C10: collecting again gives what collecting once gave, list and generator alike,
  and what the list held before a pass has no part in the result: each pass starts
  from the empty list.
\<close>

theorem collect_all_files_idempotent:
  "collect_all_files (snd (collect_all_files s)) = collect_all_files s
   \<and> fst (collect_all_files (s\<lparr>file_list := old\<rparr>)) = fst (collect_all_files s)"
  by (simp add: collect_all_files_def walk_root_def Let_def)

lemma scenario_init:
  "RepoDocumentationGenerator_init (Some scenario_root) ''file_documentation.md''
     = Some (Inr (scenario_generator, []))"
  by (simp add: RepoDocumentationGenerator_init_def scenario_root_def scenario_kids_def
      root_gitignore_def GitignoreParser_init_def parse_gitignore_def read_patterns_def
      parse_line_def strip_def is_space_def empty_parser_def scenario_generator_def
      scenario_parser_def)

lemma scenario_collected:
  "map path (fst (collect_all_files scenario_generator)) = [''src/a.py'', ''.gitignore'']"
  by code_simp

text \<open>
  C1, as the code has it: on the scenario the walk collects \<^verbatim>\<open>src/a.py\<close> and
  \<^verbatim>\<open>.gitignore\<close>. The default patterns drop \<^verbatim>\<open>__pycache__\<close>, \<^verbatim>\<open>README.md\<close> and,
  through \<^verbatim>\<open>*.log\<close>, both log files; they are asked before the rules of the ignore
  file, so that the negation rule, which does clear \<^verbatim>\<open>important.log\<close> in the rule
  set, restores nothing. The ignore file itself matches no pattern.
\<close>

theorem scenario_collects_a_py_and_gitignore:
  "RepoDocumentationGenerator_init (Some scenario_root) ''file_documentation.md''
     = Some (Inr (scenario_generator, []))
   \<and> set (map path (fst (collect_all_files scenario_generator)))
     = {''src/a.py'', ''.gitignore''}
   \<and> default_ignored ''__pycache__'' ''src/__pycache__'' DEFAULT_IGNORE_PATTERNS
   \<and> default_ignored ''README.md'' ''README.md'' DEFAULT_IGNORE_PATTERNS
   \<and> default_ignored ''debug.log'' ''debug.log'' DEFAULT_IGNORE_PATTERNS
   \<and> default_ignored ''important.log'' ''important.log'' DEFAULT_IGNORE_PATTERNS
   \<and> \<not> should_ignore scenario_parser ''important.log'' False
   \<and> \<not> default_ignored ''.gitignore'' ''.gitignore'' DEFAULT_IGNORE_PATTERNS
   \<and> \<not> should_ignore scenario_parser ''.gitignore'' False"
proof -
  have reasons:
    "default_ignored ''__pycache__'' ''src/__pycache__'' DEFAULT_IGNORE_PATTERNS
     \<and> default_ignored ''README.md'' ''README.md'' DEFAULT_IGNORE_PATTERNS
     \<and> default_ignored ''debug.log'' ''debug.log'' DEFAULT_IGNORE_PATTERNS
     \<and> default_ignored ''important.log'' ''important.log'' DEFAULT_IGNORE_PATTERNS
     \<and> \<not> should_ignore scenario_parser ''important.log'' False
     \<and> \<not> default_ignored ''.gitignore'' ''.gitignore'' DEFAULT_IGNORE_PATTERNS
     \<and> \<not> should_ignore scenario_parser ''.gitignore'' False"
    by code_simp
  have "set (map path (fst (collect_all_files scenario_generator)))
      = {''src/a.py'', ''.gitignore''}"
    by (simp only: scenario_collected list.set)
  with scenario_init reasons show ?thesis by blast
qed

text \<open>
  C1 as it is written: the collected set is not \<^verbatim>\<open>src/a.py\<close> with
  \<^verbatim>\<open>important.log\<close>.
\<close>

theorem scenario_counterexample:
  "RepoDocumentationGenerator_init (Some scenario_root) ''file_documentation.md''
     = Some (Inr (scenario_generator, []))
   \<and> set (map path (fst (collect_all_files scenario_generator)))
     \<noteq> {''src/a.py'', ''important.log''}"
proof -
  have "''important.log'' \<notin> set (map path (fst (collect_all_files scenario_generator)))"
    by (simp add: scenario_collected)
  then have "set (map path (fst (collect_all_files scenario_generator)))
      \<noteq> {''src/a.py'', ''important.log''}"
    by blast
  with scenario_init show ?thesis by blast
qed

subsection \<open>The walk as a concatenation\<close>

lemma fold_append_concat:
  "(\<And>x a. x \<in> set xs \<Longrightarrow> f x a = a @ h x) \<Longrightarrow> fold f xs a = a @ concat (map h xs)"
  by (induction xs arbitrary: a) simp_all

lemma sorted_items_Nil [simp]: "sorted_items [] = []"
  by (simp add: sorted_items_def)

lemma collect_files_append:
  "collect_files g parts lvl rd sx kids fl =
     fl @ (if rd \<and> sx then concat (map (collect_item g parts lvl) (sorted_items kids)) else [])"
proof (induction g parts lvl rd sx kids fl rule: collect_files.induct)
  case (1 g parts lvl readable searchable kids file_list)
  show ?case
  proof (cases "readable \<and> (searchable \<or> kids = [])")
    case False
    then show ?thesis by (auto simp: collect_files.simps)
  next
    case True
    have step: "(if should_ignore_item g item (join_parts (parts @ [entry_name item])) then a
             else (case item of
                     File n sz mt c \<Rightarrow> a @ make_file_info parts lvl item
                   | Dir n r x ks \<Rightarrow> collect_files g (parts @ [n]) (lvl + 1) r x ks a
                   | Special n k \<Rightarrow> a)) = a @ collect_item g parts lvl item"
      if "item \<in> set (sorted_items kids)" for item a
    proof (cases "should_ignore_item g item (join_parts (parts @ [entry_name item]))")
      case True
      then show ?thesis by (simp add: collect_item_def)
    next
      case False
      show ?thesis
      proof (cases item)
        case (Dir n r x ks)
        from that have ne: "kids \<noteq> []" by auto
        have ih: "collect_files g (parts @ [n]) (lvl + 1) r x ks b =
            b @ (if r \<and> x
                 then concat (map (collect_item g (parts @ [n]) (lvl + 1)) (sorted_items ks))
                 else [])" for b
          using "1.IH" [of item n r x ks b] True ne that False Dir by simp
        from ih [of a] ih [of "[]"] False Dir show ?thesis
          by (simp add: collect_item_def)
      qed (use False in \<open>simp_all add: collect_item_def\<close>)
    qed
    have "fold (\<lambda>item a.
             if should_ignore_item g item (join_parts (parts @ [entry_name item])) then a
             else (case item of
                     File n sz mt c \<Rightarrow> a @ make_file_info parts lvl item
                   | Dir n r x ks \<Rightarrow> collect_files g (parts @ [n]) (lvl + 1) r x ks a
                   | Special n k \<Rightarrow> a))
           (sorted_items kids) file_list
        = file_list @ concat (map (collect_item g parts lvl) (sorted_items kids))"
      by (rule fold_append_concat) (rule step)
    with True show ?thesis
      by (subst collect_files.simps) auto
  qed
qed

lemma join_parts_Cons:
  "join_parts (x # xs) = (if xs = [] then x else x @ ''/'' @ join_parts xs)"
  by (cases xs) simp_all

lemma join_parts_append:
  "xs \<noteq> [] \<Longrightarrow> join_parts (ps @ xs) = concat (map (\<lambda>p. p @ ''/'') ps) @ join_parts xs"
  by (induction ps) (simp_all add: join_parts_Cons)

lemma slash_free_prefix_eq:
  "CHR ''/'' \<notin> set x \<Longrightarrow> CHR ''/'' \<notin> set y \<Longrightarrow>
   prefix (x @ CHR ''/'' # u) (y @ CHR ''/'' # v) \<Longrightarrow> x = y"
proof (induction x arbitrary: y)
  case Nil
  then show ?case by (cases y) auto
next
  case (Cons a x)
  then show ?case by (cases y) auto
qed

lemma slash_free_no_prefix:
  "CHR ''/'' \<notin> set y \<Longrightarrow> \<not> prefix (x @ CHR ''/'' # u) y"
  using set_mono_prefix [of "x @ CHR ''/'' # u" y] by auto

lemma first_component_prefix:
  assumes "CHR ''/'' \<notin> set n" and "CHR ''/'' \<notin> set n'"
    and "prefix (join_parts (ps @ n # ds) @ ''/'') (join_parts (ps @ n' # cs))"
  shows "n = n'"
proof -
  obtain u where u: "join_parts (n # ds) @ ''/'' = n @ CHR ''/'' # u"
    by (cases ds) (simp_all add: join_parts_Cons)
  from assms(3) have p: "prefix (n @ CHR ''/'' # u) (join_parts (n' # cs))"
    by (simp add: join_parts_append [of "n # ds"] join_parts_append [of "n' # cs"] u [symmetric])
  show ?thesis
  proof (cases cs)
    case Nil
    with p assms(2) show ?thesis using slash_free_no_prefix [of n' n u] by simp
  next
    case (Cons c cs')
    with p have "prefix (n @ CHR ''/'' # u) (n' @ CHR ''/'' # join_parts (c # cs'))"
      by (simp add: join_parts_Cons)
    with assms(1,2) show ?thesis by (rule slash_free_prefix_eq)
  qed
qed

lemma first_component_eq:
  assumes "CHR ''/'' \<notin> set n" and "CHR ''/'' \<notin> set n'"
    and "join_parts (ps @ n # cs) = join_parts (ps @ n' # cs')"
  shows "n = n'"
proof -
  from assms(3) have e: "join_parts (n # cs) = join_parts (n' # cs')"
    by (simp add: join_parts_append [of "n # cs"] join_parts_append [of "n' # cs'"])
  show ?thesis
  proof (cases cs)
    case Nil
    show ?thesis
    proof (cases cs')
      case Nil
      with e \<open>cs = []\<close> show ?thesis by simp
    next
      case (Cons c r)
      with e \<open>cs = []\<close> assms(1) show ?thesis by (auto simp: join_parts_Cons)
    qed
  next
    case (Cons c r)
    show ?thesis
    proof (cases cs')
      case Nil
      with e Cons assms(2) show ?thesis by (auto simp: join_parts_Cons)
    next
      case (Cons c' r')
      with e \<open>cs = c # r\<close>
      have "prefix (n @ CHR ''/'' # join_parts (c # r)) (n' @ CHR ''/'' # join_parts (c' # r'))"
        by (simp add: join_parts_Cons)
      with assms(1,2) show ?thesis by (rule slash_free_prefix_eq)
    qed
  qed
qed


lemma collect_item_Dir:
  "collect_item g parts lvl (Dir n rd sx ks) =
     (if should_ignore_item g (Dir n rd sx ks) (join_parts (parts @ [n])) \<or> \<not> (rd \<and> sx)
      then []
      else concat (map (collect_item g (parts @ [n]) (lvl + 1)) (sorted_items ks)))"
proof (cases "should_ignore_item g (Dir n rd sx ks) (join_parts (parts @ [n]))")
  case True
  then show ?thesis by (simp add: collect_item_def)
next
  case False
  then have "collect_item g parts lvl (Dir n rd sx ks) =
      collect_files g (parts @ [n]) (lvl + 1) rd sx ks []"
    by (simp add: collect_item_def)
  also have "\<dots> =
      (if rd \<and> sx
       then concat (map (collect_item g (parts @ [n]) (lvl + 1)) (sorted_items ks))
       else [])"
    using collect_files_append [of g "parts @ [n]" "lvl + 1" rd sx ks "[]"] by simp
  finally show ?thesis using False by simp
qed

lemma collect_item_File:
  "collect_item g parts lvl (File n sz mt c) =
     (if should_ignore_item g (File n sz mt c) (join_parts (parts @ [n])) then []
      else [\<lparr>path = join_parts (parts @ [n]), name = n, level = lvl,
             directory = join_parts parts, st_size = sz, modified = mt\<rparr>])"
  by (simp add: collect_item_def make_file_info_def)

lemma collect_item_Special: "collect_item g parts lvl (Special n k) = []"
  by (simp add: collect_item_def)

lemma collect_item_path:
  "r \<in> set (collect_item g parts lvl item) \<Longrightarrow>
   \<exists>cs. path r = join_parts (parts @ entry_name item # cs)"
proof (induction item arbitrary: parts lvl r)
  case (File n sz mt c)
  then show ?case by (auto simp: collect_item_File split: if_splits)
next
  case (Dir n rd sx ks)
  from Dir.prems obtain k where k: "k \<in> set ks"
    and r: "r \<in> set (collect_item g (parts @ [n]) (lvl + 1) k)"
    by (auto simp: collect_item_Dir split: if_splits)
  from Dir.IH [OF k r] obtain cs where "path r = join_parts ((parts @ [n]) @ entry_name k # cs)"
    by blast
  then have "path r = join_parts (parts @ entry_name (Dir n rd sx ks) # entry_name k # cs)"
    by simp
  then show ?case by blast
next
  case (Special n k)
  then show ?case by (simp add: collect_item_Special)
qed

lemma wf_entry_name: "wf_entry e \<Longrightarrow> CHR ''/'' \<notin> set (entry_name e)"
  by (cases e) simp_all

lemma distinct_map_concat:
  assumes "distinct (map f xs)"
    and "\<And>x. x \<in> set xs \<Longrightarrow> distinct (map h (F x))"
    and "\<And>x y a b. x \<in> set xs \<Longrightarrow> y \<in> set xs \<Longrightarrow> a \<in> set (F x) \<Longrightarrow> b \<in> set (F y)
           \<Longrightarrow> h a = h b \<Longrightarrow> f x = f y"
  shows "distinct (map h (concat (map F xs)))"
  using assms
proof (induction xs)
  case Nil
  show ?case by simp
next
  case (Cons x xs)
  have rest: "distinct (map h (concat (map F xs)))"
    using Cons.prems by (intro Cons.IH) auto
  have "h a \<noteq> h b" if "a \<in> set (F x)" and "y \<in> set xs" and "b \<in> set (F y)" for a b y
  proof
    assume "h a = h b"
    with Cons.prems(3) [of x y a b] that have "f x = f y" by simp
    with Cons.prems(1) that(2) show False by auto
  qed
  then have "h ` set (F x) \<inter> h ` set (concat (map F xs)) = {}"
    by auto
  with rest Cons.prems(2) [of x] show ?case by simp
qed

lemma distinct_names_sorted:
  "distinct (map entry_name kids) \<Longrightarrow> distinct (map entry_name (sorted_items kids))"
  by (simp add: sorted_items_def distinct_map)

lemma distinct_collect_kids:
  assumes "wf_kids ks"
    and "\<And>k. k \<in> set ks \<Longrightarrow> distinct (map path (collect_item g ps lv k))"
  shows "distinct (map path (concat (map (collect_item g ps lv) (sorted_items ks))))"
proof (rule distinct_map_concat [where f = entry_name])
  show "distinct (map entry_name (sorted_items ks))"
    using assms(1) by (simp add: wf_kids_def distinct_names_sorted)
next
  fix x assume "x \<in> set (sorted_items ks)"
  then show "distinct (map path (collect_item g ps lv x))" using assms(2) by simp
next
  fix x y a b
  assume x: "x \<in> set (sorted_items ks)" and y: "y \<in> set (sorted_items ks)"
    and a: "a \<in> set (collect_item g ps lv x)" and b: "b \<in> set (collect_item g ps lv y)"
    and e: "path a = path b"
  from x y assms(1) have sx: "CHR ''/'' \<notin> set (entry_name x)"
    and sy: "CHR ''/'' \<notin> set (entry_name y)"
    by (auto simp: wf_kids_def list_all_iff wf_entry_name)
  from collect_item_path [OF a] obtain cs where pa: "path a = join_parts (ps @ entry_name x # cs)"
    by blast
  from collect_item_path [OF b] obtain cs' where pb: "path b = join_parts (ps @ entry_name y # cs')"
    by blast
  from pa pb e have "join_parts (ps @ entry_name x # cs) = join_parts (ps @ entry_name y # cs')"
    by simp
  with sx sy show "entry_name x = entry_name y" by (rule first_component_eq)
qed

lemma distinct_collect_item:
  "wf_entry item \<Longrightarrow> distinct (map path (collect_item g parts lvl item))"
proof (induction item arbitrary: parts lvl)
  case (Dir n rd sx ks)
  from Dir.prems have wf: "wf_kids ks" by (simp add: wf_kids_def)
  have "distinct (map path (collect_item g (parts @ [n]) (lvl + 1) k))" if "k \<in> set ks" for k
    using Dir.IH [OF that] Dir.prems that by (simp add: list_all_iff)
  with wf have "distinct (map path (concat (map (collect_item g (parts @ [n]) (lvl + 1)) (sorted_items ks))))"
    by (rule distinct_collect_kids)
  then show ?case by (simp add: collect_item_Dir)
qed (simp_all add: collect_item_File collect_item_Special)

lemma distinct_collect_files:
  assumes "wf_kids kids"
  shows "distinct (map path (collect_files g parts lvl rd sx kids []))"
proof -
  have "distinct (map path (concat (map (collect_item g parts lvl) (sorted_items kids))))"
    using assms
    by (rule distinct_collect_kids) (use assms in \<open>simp add: wf_kids_def list_all_iff distinct_collect_item\<close>)
  then show ?thesis by (simp add: collect_files_append [of g parts lvl rd sx kids "[]"])
qed


lemma find_SomeD: "find P xs = Some x \<Longrightarrow> x \<in> set xs \<and> P x"
  by (induction xs) (auto split: if_splits)

lemma same_name_same_entry:
  assumes "wf_kids kids" and "a \<in> set kids" and "b \<in> set kids"
    and "entry_name a = entry_name b"
  shows "a = b"
proof -
  from assms(1) have "inj_on entry_name (set kids)"
    by (simp add: wf_kids_def distinct_map)
  from inj_onD [OF this assms(4,2,3)] show ?thesis .
qed

lemma skipped_entry_no_descendant:
  assumes "wf_kids kids" and "lookup kids ds = Some e"
    and "should_ignore_item g e (join_parts (parts @ ds))"
    and "r \<in> set (concat (map (collect_item g parts lvl) (sorted_items kids)))"
  shows "\<not> prefix (join_parts (parts @ ds) @ ''/'') (path r)"
  using assms
proof (induction kids ds arbitrary: parts lvl rule: lookup.induct)
  case (1 kids)
  then show ?case by simp
next
  case (2 kids c)
  from "2.prems"(2) have e: "e \<in> set kids" "entry_name e = c"
    by (auto dest: find_SomeD)
  from "2.prems"(4) obtain k where k: "k \<in> set kids" and r: "r \<in> set (collect_item g parts lvl k)"
    by auto
  from collect_item_path [OF r] obtain cs where p: "path r = join_parts (parts @ entry_name k # cs)"
    by blast
  show ?case
  proof
    assume "prefix (join_parts (parts @ [c]) @ ''/'') (path r)"
    with p have "prefix (join_parts (parts @ c # []) @ ''/'') (join_parts (parts @ entry_name k # cs))"
      by simp
    moreover from e k "2.prems"(1) have "CHR ''/'' \<notin> set c" "CHR ''/'' \<notin> set (entry_name k)"
      by (auto simp: wf_kids_def list_all_iff wf_entry_name)
    ultimately have "c = entry_name k" using first_component_prefix by blast
    with e have "entry_name k = entry_name e" by simp
    from same_name_same_entry [OF "2.prems"(1) k e(1) this] have "k = e" .
    with "2.prems"(3) e have "collect_item g parts lvl k = []"
      by (simp add: collect_item_def)
    with r show False by simp
  qed
next
  case (3 kids c d cs)
  from "3.prems"(2) obtain n rd sx ks where f: "find (\<lambda>e. entry_name e = c) kids = Some (Dir n rd sx ks)"
    and below: "lookup ks (d # cs) = Some e"
    by (auto split: option.splits entry.splits)
  from f have dir: "Dir n rd sx ks \<in> set kids" and n: "n = c"
    by (auto dest: find_SomeD)
  from "3.prems"(4) obtain k where k: "k \<in> set kids" and r: "r \<in> set (collect_item g parts lvl k)"
    by auto
  from collect_item_path [OF r] obtain cs' where p: "path r = join_parts (parts @ entry_name k # cs')"
    by blast
  show ?case
  proof
    assume a: "prefix (join_parts (parts @ c # d # cs) @ ''/'') (path r)"
    with p have "prefix (join_parts (parts @ c # d # cs) @ ''/'') (join_parts (parts @ entry_name k # cs'))"
      by simp
    moreover from dir n k "3.prems"(1) have "CHR ''/'' \<notin> set c" "CHR ''/'' \<notin> set (entry_name k)"
      by (auto simp: wf_kids_def list_all_iff dest: wf_entry_name)
    ultimately have "c = entry_name k" using first_component_prefix by blast
    with n have "entry_name k = entry_name (Dir n rd sx ks)" by simp
    from same_name_same_entry [OF "3.prems"(1) k dir this] have keq: "k = Dir n rd sx ks" .
    from dir "3.prems"(1) have wf: "wf_kids ks"
      by (auto simp: wf_kids_def list_all_iff)
    from r keq have r': "r \<in> set (concat (map (collect_item g (parts @ [n]) (lvl + 1)) (sorted_items ks)))"
      by (simp add: collect_item_Dir split: if_splits)
    from "3.prems"(3) n have ign: "should_ignore_item g e (join_parts ((parts @ [n]) @ d # cs))"
      by simp
    from "3.IH" [OF f refl wf below ign r'] a n show False by simp
  qed
qed

lemma length_filter_excluded:
  assumes "distinct (map h xs)" and "E \<subseteq> set (map h xs)"
  shows "length (filter (\<lambda>x. h x \<notin> E) xs) + card E = length xs"
proof -
  have "map h (filter (\<lambda>x. h x \<in> E) xs) = filter (\<lambda>y. y \<in> E) (map h xs)"
    by (simp add: filter_map comp_def)
  moreover have "distinct (filter (\<lambda>y. y \<in> E) (map h xs))"
    using assms(1) by simp
  moreover have "set (filter (\<lambda>y. y \<in> E) (map h xs)) = E"
    using assms(2) by auto
  ultimately have "card E = length (filter (\<lambda>x. h x \<in> E) xs)"
    using distinct_card [of "filter (\<lambda>y. y \<in> E) (map h xs)"]
    by (metis length_map)
  with sum_length_filter_compl [of "\<lambda>x. h x \<in> E" xs] show ?thesis by simp
qed

lemma collect_all_files_root:
  "root_path s = Dir rn rr rx kids \<Longrightarrow>
   fst (collect_all_files s) = collect_files (gitignore_parser s) [] 0 rr rx kids []
   \<and> file_list (snd (collect_all_files s)) = collect_files (gitignore_parser s) [] 0 rr rx kids []"
  by (simp add: collect_all_files_def walk_root_def Let_def)

text \<open>
  C5: let a directory of the tree, at the relative path \<open>ds\<close>, be skipped by the
  default patterns or by the rules of the ignore file. Then no collected record has a
  path that lies strictly inside it, that is, a path that starts with the path of the
  directory followed by a slash.
\<close>

theorem no_record_inside_skipped_directory:
  assumes "root_path s = Dir rn rr rx kids" and "wf_kids kids"
    and "lookup kids ds = Some (Dir n rd sx ks)"
    and "should_ignore_item (gitignore_parser s) (Dir n rd sx ks) (join_parts ds)"
    and "r \<in> set (fst (collect_all_files s))"
  shows "\<not> prefix (join_parts ds @ ''/'') (path r)"
proof -
  from assms(1,5) have "r \<in> set (collect_files (gitignore_parser s) [] 0 rr rx kids [])"
    by (simp add: collect_all_files_root)
  then have "r \<in> set (concat (map (collect_item (gitignore_parser s) [] 0) (sorted_items kids)))"
    by (simp add: collect_files_append [of _ "[]" 0 rr rx kids "[]"] split: if_splits)
  with skipped_entry_no_descendant [of kids ds "Dir n rd sx ks" "gitignore_parser s" "[]" r 0] assms(2,3,4)
  show ?thesis by simp
qed

text \<open>
  C6: for the list a pass has collected and a set of excluded paths that are all paths
  of collected records, the included records are the collected records whose path is
  not excluded, in the order of the collected list, and their number and the number
  of excluded paths add up to the number of collected records.
\<close>

theorem included_files_subsequence:
  assumes "root_path s = Dir rn rr rx kids" and "wf_kids kids"
    and "collect_all_files s = (fl, s')"
    and "ex \<subseteq> set (map path fl)"
  shows "get_included_files (set_excluded_files s' ex) = filter (\<lambda>f. path f \<notin> ex) fl
    \<and> subseq (get_included_files (set_excluded_files s' ex)) fl
    \<and> length (get_included_files (set_excluded_files s' ex)) + card ex = length fl"
proof -
  from assms(1,3) collect_all_files_root [of s rn rr rx kids]
  have fl: "fl = collect_files (gitignore_parser s) [] 0 rr rx kids []" and s': "file_list s' = fl"
    by simp_all
  from fl assms(2) have "distinct (map path fl)"
    by (simp add: distinct_collect_files)
  with assms(4) have "length (filter (\<lambda>f. path f \<notin> ex) fl) + card ex = length fl"
    by (rule length_filter_excluded [rotated])
  with s' show ?thesis
    by (simp add: get_included_files_def set_excluded_files_def)
qed


lemma scenario_collect_all:
  "collect_all_files scenario_generator
     = (scenario_records, scenario_generator\<lparr>file_list := scenario_records\<rparr>)"
  by code_simp

lemma scenario_wf: "wf_kids scenario_kids"
  by code_simp

theorem no_record_inside_skipped_directory_witness:
  "root_path scenario_generator = Dir ''repo'' True True scenario_kids
   \<and> wf_kids scenario_kids
   \<and> lookup scenario_kids [''src'', ''__pycache__'']
       = Some (Dir ''__pycache__'' True True
                [File ''x.pyc'' 9 ''2024-01-01 00:00:00'' (Readable [])])
   \<and> should_ignore_item (gitignore_parser scenario_generator)
         (Dir ''__pycache__'' True True [File ''x.pyc'' 9 ''2024-01-01 00:00:00'' (Readable [])])
         (join_parts [''src'', ''__pycache__''])
   \<and> hd scenario_records \<in> set (fst (collect_all_files scenario_generator))
   \<and> \<not> prefix (join_parts [''src'', ''__pycache__''] @ ''/'') (path (hd scenario_records))"
proof -
  have a: "root_path scenario_generator = Dir ''repo'' True True scenario_kids"
    by (simp add: scenario_generator_def scenario_root_def)
  have c: "lookup scenario_kids [''src'', ''__pycache__'']
       = Some (Dir ''__pycache__'' True True
                [File ''x.pyc'' 9 ''2024-01-01 00:00:00'' (Readable [])])"
    by code_simp
  have d: "should_ignore_item (gitignore_parser scenario_generator)
         (Dir ''__pycache__'' True True [File ''x.pyc'' 9 ''2024-01-01 00:00:00'' (Readable [])])
         (join_parts [''src'', ''__pycache__''])"
    by code_simp
  have e: "hd scenario_records \<in> set (fst (collect_all_files scenario_generator))"
    by (simp add: scenario_collect_all scenario_records_def)
  from no_record_inside_skipped_directory [OF a scenario_wf c d e] a scenario_wf c d e
  show ?thesis by blast
qed

theorem included_files_subsequence_witness:
  "root_path scenario_generator = Dir ''repo'' True True scenario_kids
   \<and> wf_kids scenario_kids
   \<and> collect_all_files scenario_generator
       = (scenario_records, scenario_generator\<lparr>file_list := scenario_records\<rparr>)
   \<and> {''.gitignore''} \<subseteq> set (map path scenario_records)
   \<and> get_included_files
         (set_excluded_files (scenario_generator\<lparr>file_list := scenario_records\<rparr>)
            {''.gitignore''})
       = [hd scenario_records]
   \<and> length (get_included_files
         (set_excluded_files (scenario_generator\<lparr>file_list := scenario_records\<rparr>)
            {''.gitignore''})) + card {''.gitignore''} = 2"
proof -
  have a: "root_path scenario_generator = Dir ''repo'' True True scenario_kids"
    by (simp add: scenario_generator_def scenario_root_def)
  have d: "{''.gitignore''} \<subseteq> set (map path scenario_records)"
    by (simp add: scenario_records_def)
  from included_files_subsequence [OF a scenario_wf scenario_collect_all d] a scenario_wf
    scenario_collect_all d
  show ?thesis by (simp add: scenario_records_def)
qed

section \<open>Properties of the selection\<close>

lemma flip_path_twice: "flip_path p (flip_path p ex) = ex"
  by (auto simp: flip_path_def)

lemma flip_path_commute: "flip_path p (flip_path q ex) = flip_path q (flip_path p ex)"
  by (auto simp: flip_path_def)

lemma fold_flip_path_commute:
  "fold flip_path ps (flip_path p ex) = flip_path p (fold flip_path ps ex)"
proof (induction ps arbitrary: ex)
  case Nil
  show ?case by simp
next
  case (Cons a ps)
  have "fold flip_path (a # ps) (flip_path p ex)
      = fold flip_path ps (flip_path p (flip_path a ex))"
    by (simp add: flip_path_commute [of a p])
  also have "\<dots> = flip_path p (fold flip_path ps (flip_path a ex))"
    by (rule Cons.IH)
  finally show ?case by simp
qed

lemma fold_flip_path_twice: "fold flip_path ps (fold flip_path ps ex) = ex"
  by (induction ps arbitrary: ex) (simp_all add: fold_flip_path_commute flip_path_twice)

text \<open>
  C8: inverting the selection of all files twice gives back the window as it was,
  whatever the known paths and whatever the excluded set before.
\<close>

theorem toggle_all_selection_involution:
  "toggle_all_selection (toggle_all_selection w) = w"
  by (simp add: toggle_all_selection_def fold_flip_path_twice)

text \<open>
  C7, as the code has it: in the preview window, when the excluded set is the set of
  all listed paths (which are pairwise distinct), \<^verbatim>\<open>confirm\<close> shows the warning and
  returns: the callback is not called, and the window is left as it was, open, for
  the user to change the selection and confirm again.
\<close>

theorem confirm_rejects_empty_selection:
  assumes "distinct (map path (files_list w))"
    and "excluded w = set (map path (files_list w))"
  shows "confirm w = (w, [ShowWarning ''No Files Selected''
                  ''You must include at least one file to generate documentation.''])"
proof -
  have "card (excluded w) = length (files_list w)"
    using assms distinct_card [of "map path (files_list w)"] by simp
  then show ?thesis by (simp add: confirm_def)
qed

theorem confirm_rejects_empty_selection_witness:
  "confirm \<lparr>files_list = [\<lparr>path = ''src/a.py'', name = ''a.py'', level = 1,
                directory = ''src'', st_size = 7, modified = ''2024-01-01 00:00:00''\<rparr>],
            file_items = [''src/a.py''], excluded = {''src/a.py''}, destroyed = False\<rparr>
   = (\<lparr>files_list = [\<lparr>path = ''src/a.py'', name = ''a.py'', level = 1,
                directory = ''src'', st_size = 7, modified = ''2024-01-01 00:00:00''\<rparr>],
            file_items = [''src/a.py''], excluded = {''src/a.py''}, destroyed = False\<rparr>,
      [ShowWarning ''No Files Selected''
         ''You must include at least one file to generate documentation.''])"
  using confirm_rejects_empty_selection
    [of "\<lparr>files_list = [\<lparr>path = ''src/a.py'', name = ''a.py'', level = 1,
                directory = ''src'', st_size = 7, modified = ''2024-01-01 00:00:00''\<rparr>],
            file_items = [''src/a.py''], excluded = {''src/a.py''}, destroyed = False\<rparr>"]
  by simp

text \<open>
  C7 as it is written speaks of every request to generate. The command line mode has
  no such check: on a root that holds only a \<^verbatim>\<open>README.md\<close> nothing is collected, the
  excluded set (empty) is the set of all collected paths, and the output file is
  written all the same, with no record in it.
\<close>

theorem cli_writes_with_nothing_included:
  "RepoDocumentationGenerator_init (Some readme_only_root) ''file_documentation.md''
     = Some (Inr (readme_only_generator, []))
   \<and> excluded_files (snd (collect_all_files readme_only_generator))
     = set (map path (fst (collect_all_files readme_only_generator)))
   \<and> main_cli (Some readme_only_root) ''file_documentation.md'' True
     = Some (0, Some (''file_documentation.md'', []))"
proof -
  have a: "RepoDocumentationGenerator_init (Some readme_only_root) ''file_documentation.md''
      = Some (Inr (readme_only_generator, []))"
    by (simp add: RepoDocumentationGenerator_init_def readme_only_root_def
        root_gitignore_def GitignoreParser_init_def readme_only_generator_def)
  have b: "fst (collect_all_files readme_only_generator) = []"
    by code_simp
  have c: "excluded_files (snd (collect_all_files readme_only_generator)) = {}"
    by (simp add: collect_all_files_def Let_def readme_only_generator_def)
  have d: "main_cli (Some readme_only_root) ''file_documentation.md'' True
      = Some (0, Some (''file_documentation.md'', []))"
    by code_simp
  from a b c d show ?thesis by simp
qed

end
